theory Spec2Isabelle
  imports Main "HOL-Library.Word"
begin

section \<open>The KISS read-only filesystem driver (student-distrib/fs/kissfs.cpp)\<close>

subsection \<open>Machine types and memory\<close>

text \<open>
  The kernel is a 32-bit x86 kernel: \<open>uint32_t\<close> and \<open>size_t\<close> are 32-bit unsigned
  words whose arithmetic wraps around, \<open>int32_t\<close> results are kept as the 32-bit pattern
  and read with \<open>sint\<close> (so \<open>return -1\<close> is the word \<open>- 1\<close>).

  A region of memory reached through a pointer (\<open>buf\<close>, \<open>imageStartingAddress\<close>) is
  the function from byte offsets, counted from the pointer, to bytes. The C++ code does
  no bounds check on these regions, and neither does the model.
\<close>

type_synonym u8 = "8 word"
type_synonym u32 = "32 word"
type_synonym bytes = "nat \<Rightarrow> u8"

text \<open>
  An array held in a C++ object (\<open>dentries\<close>, \<open>inodes\<close>, \<open>datablocks\<close>,
  \<open>filename\<close>) is a list; indexing it past its end is undefined behaviour in C++ and
  is the outcome \<open>OutOfBounds\<close> of the model. \<open>Unterminated\<close> is a \<open>strlen\<close>
  that never meets a NUL byte.
\<close>

datatype fault = OutOfBounds | Unterminated

definition at_index :: "'a list \<Rightarrow> u32 \<Rightarrow> 'a option" where
  "at_index xs i = (if unat i < length xs then Some (xs ! unat i) else None)"

text \<open>\<open>memcpy(dst + d, src + s, n)\<close> on two separate regions.\<close>

definition memcpy :: "bytes \<Rightarrow> nat \<Rightarrow> bytes \<Rightarrow> nat \<Rightarrow> nat \<Rightarrow> bytes" where
  "memcpy dst d src s n = (\<lambda>a. if d \<le> a \<and> a < d + n then src (s + (a - d)) else dst a)"

subsection \<open>Data model\<close>

definition SPECIAL_DEVICE :: u32 where "SPECIAL_DEVICE = 0"
definition DIRECTORY :: u32 where "DIRECTORY = 1"
definition NORMAL_FILE :: u32 where "NORMAL_FILE = 2"

text \<open>
  \<open>dentry_t\<close> and \<open>inode_t\<close> are declared in \<open>inc/fs/kiss.h\<close>, which is not among
  the sources; their fields are the ones this file reads and writes. The capacity of the
  \<open>filename\<close> array (\<open>MaxFilenameLength\<close>) is the length of the list. The field
  \<open>size\<close> of an inode is \<open>isize\<close> here.
\<close>

record dentry_t =
  filename :: "u8 list"
  filetype :: u32
  inode :: u32

record inode_t =
  isize :: u32
  numDataBlocks :: u32
  datablocks :: "u32 list"

text \<open>
  The filesystem object. \<open>BlockSize\<close> is a compile-time constant of \<open>inc/fs/kiss.h\<close>,
  which is not among the sources: it is a parameter of the model, carried with the
  object (a build has a positive \<open>BlockSize\<close>; for 0 the divisions of the model
  yield 0 where the machine would trap). \<open>imageStartingAddress\<close> is the memory that
  the pointer of that name addresses. The hash table \<open>dentryIndexOfFilename\<close> is the
  partial map it implements, from \<open>Filename\<close> keys to dentry positions.
\<close>

record KissFS =
  BlockSize :: u32
  numDentries :: u32
  numInodes :: u32
  numTotalDataBlocks :: u32
  numBlocks :: u32
  dentries :: "dentry_t list"
  inodes :: "inode_t list"
  imageStartingAddress :: bytes
  dentryIndexOfFilename :: "string \<rightharpoonup> u32"

subsection \<open>readBlock\<close>

text \<open>
  \<open>readBlock(datablockId, offset, buf, len)\<close>; the pointer argument \<open>buf\<close> of the
  source is the pair of the caller's buffer and the position \<open>dst\<close> in it. The result
  is the returned flag and the buffer afterwards.
\<close>

definition rawBlockId :: "KissFS \<Rightarrow> u32 \<Rightarrow> u32" where
  "rawBlockId fs datablockId = datablockId + numInodes fs + 1"

definition readBlock :: "KissFS \<Rightarrow> u32 \<Rightarrow> u32 \<Rightarrow> bytes \<Rightarrow> nat \<Rightarrow> u32 \<Rightarrow> bool \<times> bytes" where
  "readBlock fs datablockId offset buf dst len =
     (if rawBlockId fs datablockId \<ge> numBlocks fs then (False, buf)
      else (True, memcpy buf dst (imageStartingAddress fs)
                    (unat (rawBlockId fs datablockId * BlockSize fs) + unat offset) (unat len)))"

subsection \<open>readData\<close>

text \<open>
  One invocation of \<open>readBlock\<close> by \<open>readData\<close>: its arguments, the buffer pointer
  \<open>buf + read\<close> being recorded as the position \<open>read\<close>.
\<close>

record call =
  c_datablockId :: u32
  c_offset :: u32
  c_dst :: u32
  c_len :: u32

text \<open>
  The variables of \<open>readData\<close> that change in its loop (\<open>length\<close>, \<open>read\<close> and
  \<open>buf\<close> carry the prefix \<open>rd_\<close>). \<open>calls\<close> is not a variable of the source: it
  lists the invocations of \<open>readBlock\<close> so far, oldest first.
\<close>

record rd_state =
  rd_length :: u32
  bytesRemaining :: u32
  rd_read :: u32
  realOffset :: u32
  rd_buf :: bytes
  calls :: "call list"

text \<open>How one pass through the loop body ends.\<close>

datatype ctl =
    Return (ctl_ret: u32) (ctl_state: rd_state)
  | Break (ctl_state: rd_state)
  | Continue (ctl_state: rd_state)

definition readData_body :: "KissFS \<Rightarrow> inode_t \<Rightarrow> u32 \<Rightarrow> rd_state \<Rightarrow> fault + ctl" where
  "readData_body fs ino i st =
     (case at_index (datablocks ino) i of
        None \<Rightarrow> Inl OutOfBounds
      | Some datablockId \<Rightarrow>
          if datablockId \<le> numTotalDataBlocks fs then
            let len = rd_length st;
                len = (if len > bytesRemaining st then bytesRemaining st else len);
                len = (if len > BlockSize fs then BlockSize fs else len);
                st1 = st\<lparr>calls := calls st @
                        [\<lparr>c_datablockId = datablockId, c_offset = realOffset st,
                          c_dst = rd_read st, c_len = len\<rparr>]\<rparr>
            in (case readBlock fs datablockId (realOffset st) (rd_buf st) (unat (rd_read st)) len of
                  (False, b) \<Rightarrow> Inr (Return (- 1) (st1\<lparr>rd_buf := b\<rparr>))
                | (True, b) \<Rightarrow>
                    let st2 = st1\<lparr>rd_buf := b,
                                  rd_length := rd_length st - len,
                                  bytesRemaining := bytesRemaining st - len,
                                  rd_read := rd_read st + len,
                                  realOffset := 0\<rparr>
                    in if rd_length st2 \<le> 0 then Inr (Break st2) else Inr (Continue st2))
          else Inr (Return (- 1) st))"

function readData_loop :: "KissFS \<Rightarrow> inode_t \<Rightarrow> u32 \<Rightarrow> rd_state \<Rightarrow> fault + (u32 \<times> rd_state)" where
  "readData_loop fs ino i st =
     (if i < numDataBlocks ino then
        (case readData_body fs ino i st of
           Inl e \<Rightarrow> Inl e
         | Inr (Return r st') \<Rightarrow> Inr (r, st')
         | Inr (Break st') \<Rightarrow> Inr (rd_read st', st')
         | Inr (Continue st') \<Rightarrow> readData_loop fs ino (i + 1) st')
      else Inr (rd_read st, st))"
  by pat_completeness auto
termination
proof (relation "measure (\<lambda>(fs, ino, i, st). unat (numDataBlocks ino) - unat i)")
  show "wf (measure (\<lambda>(fs, ino, i, st). unat (numDataBlocks ino) - unat i))" by simp
next
  fix fs :: KissFS and ino :: inode_t and i :: u32 and st :: rd_state and x2 x3
  assume lt: "i < numDataBlocks ino"
  have lt': "unat i < unat (numDataBlocks ino)" using lt by (simp add: word_less_nat_alt)
  have "unat (numDataBlocks ino) < 2 ^ LENGTH(32)" by (rule unsigned_less)
  with lt' have "unat i + unat (1 :: u32) < 2 ^ LENGTH(32)" by simp
  then have "unat (i + 1) = unat i + unat (1 :: u32)" by (simp only: unat_add_lem)
  with lt' show "((fs, ino, i + 1, x3), fs, ino, i, st)
        \<in> measure (\<lambda>(fs, ino, i, st). unat (numDataBlocks ino) - unat i)"
    by simp
qed

declare readData_loop.simps [simp del]

text \<open>
  \<open>readData(inode, offset, buf, length)\<close>: the returned value, the buffer afterwards
  and the invocations of \<open>readBlock\<close> it made.
\<close>

definition rd_init :: "inode_t \<Rightarrow> u32 \<Rightarrow> u32 \<Rightarrow> bytes \<Rightarrow> u32 \<Rightarrow> rd_state" where
  "rd_init ino bs offset buf len =
     \<lparr>rd_length = len, bytesRemaining = isize ino - offset, rd_read = 0,
      realOffset = offset mod bs, rd_buf = buf, calls = []\<rparr>"

definition readData :: "KissFS \<Rightarrow> u32 \<Rightarrow> u32 \<Rightarrow> bytes \<Rightarrow> u32 \<Rightarrow> fault + (u32 \<times> bytes \<times> call list)" where
  "readData fs inode_idx offset buf len =
     (if inode_idx \<le> numInodes fs then
        (case at_index (inodes fs) inode_idx of
           None \<Rightarrow> Inl OutOfBounds
         | Some ino \<Rightarrow>
             let startingDataBlock = offset div BlockSize fs
             in (case readData_loop fs ino startingDataBlock
                        (rd_init ino (BlockSize fs) offset buf len) of
                   Inl e \<Rightarrow> Inl e
                 | Inr (r, st) \<Rightarrow> Inr (r, rd_buf st, calls st)))
      else Inr (- 1, buf, []))"

subsection \<open>File descriptors\<close>

text \<open>
  \<open>KissFileDescriptorData\<close> is declared in \<open>inc/fs/kiss.h\<close>; its fields are the ones
  this file uses. \<open>base\<close> points to the first element of the dentry array: the array
  never changes after initialisation, so the pointer is the array it points to.
\<close>

record dentryData_t =
  base :: "dentry_t list"
  idx :: u32
  maxIdx :: u32

record KissFileDescriptorData =
  fd_filetype :: u32
  fd_inode :: u32
  dentryData :: dentryData_t

text \<open>
  \<open>open(filename, fdData)\<close>. \<open>Filename\<close> is the constructor of the hash table's key
  from a C string and \<open>fresh\<close> is the object that \<open>new KissFileDescriptorData()\<close>
  yields; both come from the absent header and are parameters. \<open>Inr None\<close> is
  \<open>return false\<close> (NotFound), \<open>Inr (Some data)\<close> is \<open>return true\<close> with
  \<open>fdData = data\<close>.
\<close>

definition kiss_open ::
  "(string \<Rightarrow> string) \<Rightarrow> KissFileDescriptorData \<Rightarrow> KissFS \<Rightarrow> string
     \<Rightarrow> fault + KissFileDescriptorData option" where
  "kiss_open Filename fresh fs fname =
     (case dentryIndexOfFilename fs (Filename fname) of
        None \<Rightarrow> Inr None
      | Some dentryIdx \<Rightarrow>
          (case at_index (dentries fs) dentryIdx of
             None \<Rightarrow> Inl OutOfBounds
           | Some d \<Rightarrow>
               let data = fresh\<lparr>fd_filetype := filetype d\<rparr>
               in if filetype d = DIRECTORY
                  then Inr (Some (data\<lparr>dentryData :=
                          \<lparr>base = dentries fs, idx = 0, maxIdx = numDentries fs\<rparr>\<rparr>))
                  else Inr (Some (data\<lparr>fd_inode := inode d\<rparr>))))"

subsection \<open>The C string functions used by readDir\<close>





subsection \<open>read, readDir, write, canSeek, getFileSize\<close>



text \<open>
  \<open>write\<close> (\<open>kiss_write\<close> here, as \<open>kiss_open\<close> above: both names are reserved
  words) returns its value with the filesystem object and the descriptor afterwards.
\<close>

definition kiss_write ::
  "KissFS \<Rightarrow> KissFileDescriptorData \<Rightarrow> u32 \<Rightarrow> bytes \<Rightarrow> u32
     \<Rightarrow> u32 \<times> KissFS \<times> KissFileDescriptorData" where
  "kiss_write fs fdData offset buf len = (- 1, fs, fdData)"

definition canSeek :: "KissFS \<Rightarrow> KissFileDescriptorData \<Rightarrow> bool" where
  "canSeek fs fdData = (if fd_filetype fdData = NORMAL_FILE then True else False)"

definition getFileSize :: "KissFS \<Rightarrow> KissFileDescriptorData \<Rightarrow> fault + u32 option" where
  "getFileSize fs fdData =
     (if fd_filetype fdData \<noteq> NORMAL_FILE then Inr None
      else (case at_index (inodes fs) (fd_inode fdData) of
              None \<Rightarrow> Inl OutOfBounds
            | Some ino \<Rightarrow> Inr (Some (isize ino))))"

subsection \<open>Notions used to state the properties\<close>

text \<open>
  The length that one pass through the loop body of \<open>readData\<close> hands to
  \<open>readBlock\<close> (the three assignments to \<open>len\<close>), the invocation it makes for the
  data block \<open>d\<close>, and the loop variables after a successful copy.
\<close>

definition copy_len :: "KissFS \<Rightarrow> rd_state \<Rightarrow> u32" where
  "copy_len fs st = min (min (rd_length st) (bytesRemaining st)) (BlockSize fs)"

definition call_of :: "KissFS \<Rightarrow> u32 \<Rightarrow> rd_state \<Rightarrow> call" where
  "call_of fs d st = \<lparr>c_datablockId = d, c_offset = realOffset st, c_dst = rd_read st,
                       c_len = copy_len fs st\<rparr>"

definition after_copy :: "KissFS \<Rightarrow> u32 \<Rightarrow> rd_state \<Rightarrow> rd_state" where
  "after_copy fs d st =
     st\<lparr>calls := calls st @ [call_of fs d st],
        rd_buf := memcpy (rd_buf st) (unat (rd_read st)) (imageStartingAddress fs)
                    (unat (rawBlockId fs d * BlockSize fs) + unat (realOffset st))
                    (unat (copy_len fs st)),
        rd_length := rd_length st - copy_len fs st,
        bytesRemaining := bytesRemaining st - copy_len fs st,
        rd_read := rd_read st + copy_len fs st,
        realOffset := 0\<rparr>"

text \<open>The total number of bytes that a list of invocations asks \<open>readBlock\<close> for.\<close>

definition lens :: "call list \<Rightarrow> nat" where
  "lens cs = sum_list (map (\<lambda>c. unat (c_len c)) cs)"

text \<open>
  The loop invariant of \<open>readData\<close> for a request of \<open>L\<close> bytes: what was read and
  what is still asked for add up to \<open>L\<close> without wrapping.
\<close>

definition rd_inv :: "u32 \<Rightarrow> rd_state \<Rightarrow> bool" where
  "rd_inv L st \<longleftrightarrow>
     unat (rd_read st) + unat (rd_length st) = unat L \<and> lens (calls st) = unat (rd_read st)"






text \<open>A result with the buffer shown at the listed positions only.\<close>

definition rd_view ::
  "nat list \<Rightarrow> fault + (u32 \<times> bytes \<times> call list) \<Rightarrow> fault + (u32 \<times> u8 list \<times> call list)" where
  "rd_view ps res = (case res of Inl e \<Rightarrow> Inl e | Inr (r, b, cs) \<Rightarrow> Inr (r, map b ps, cs))"


subsection \<open>Example images\<close>

text \<open>
  An image of seven blocks of 4096 bytes: the boot block, two inode blocks and the data
  blocks 0 to 3. The directory holds \<open>.\<close>, \<open>hello.txt\<close> (inode 0: ten bytes, the digits
  \<open>0123456789\<close>, in data block 0) and \<open>big\<close> (inode 1: 8192 bytes in the data blocks 1
  and 3). Apart from the ten digits, every byte of the image is the number of its raw
  block. File names are arrays of 32 bytes.
\<close>

definition fs_ex :: KissFS where
  "fs_ex =
     \<lparr>BlockSize = 4096, numDentries = 3, numInodes = 2, numTotalDataBlocks = 4, numBlocks = 7,
      dentries =
        [\<lparr>filename = [46] @ replicate 31 0, filetype = 1, inode = 0\<rparr>,
         \<lparr>filename = [104, 101, 108, 108, 111, 46, 116, 120, 116] @ replicate 23 0,
          filetype = 2, inode = 0\<rparr>,
         \<lparr>filename = [98, 105, 103] @ replicate 29 0, filetype = 2, inode = 1\<rparr>],
      inodes =
        [\<lparr>isize = 10, numDataBlocks = 1, datablocks = [0]\<rparr>,
         \<lparr>isize = 8192, numDataBlocks = 2, datablocks = [1, 3]\<rparr>],
      imageStartingAddress = (\<lambda>a. if 12288 \<le> a \<and> a < 12298 then word_of_nat (48 + (a - 12288))
                     else word_of_nat (a div 4096)),
      dentryIndexOfFilename = [''.'' \<mapsto> 0, ''hello.txt'' \<mapsto> 1, ''big'' \<mapsto> 2]\<rparr>"


text \<open>
  A zeroed buffer, a buffer holding eight bytes \<open>x\<close> before its first NUL, a zeroed
  descriptor object, and the directory descriptor of \<open>fs\<close> with its cursor at \<open>i\<close>.
\<close>

definition buf0 :: bytes where
  "buf0 = (\<lambda>a. 0)"


definition fresh0 :: KissFileDescriptorData where
  "fresh0 = \<lparr>fd_filetype = 0, fd_inode = 0, dentryData = \<lparr>base = [], idx = 0, maxIdx = 0\<rparr>\<rparr>"

definition dir_fd :: "KissFS \<Rightarrow> u32 \<Rightarrow> KissFileDescriptorData" where
  "dir_fd fs i =
     \<lparr>fd_filetype = 1, fd_inode = 0,
      dentryData = \<lparr>base = dentries fs, idx = i, maxIdx = numDentries fs\<rparr>\<rparr>"

section \<open>Auxiliary facts\<close>

subsection \<open>Words\<close>


lemma rawBlock_mult_no_overflow:
  assumes "r < (n :: u32)" and "unat n * unat (bs :: u32) < 2 ^ 32"
  shows "unat (r * bs) = unat r * unat bs"
proof -
  have "unat r < unat n" using assms(1) by (simp add: word_less_nat_alt)
  then have "unat r * unat bs \<le> unat n * unat bs" by (simp add: mult_le_mono1)
  also have "\<dots> < 2 ^ 32" by (rule assms(2))
  finally have "unat r * unat bs < 2 ^ LENGTH(32)" by simp
  then show ?thesis by (simp only: unat_mult_lem)
qed

lemma word_sub_wraps:
  assumes "(a :: u32) < b"
  shows "uint (a - b) = (uint a - uint b) mod 2 ^ 32"
    and "unat (a - b) = 2 ^ 32 - (unat b - unat a)"
    and "a - b \<noteq> 0"
proof -
  show "uint (a - b) = (uint a - uint b) mod 2 ^ 32"
    by (simp add: uint_word_ariths)
  have lt: "unat a < unat b" using assms by (simp add: word_less_nat_alt)
  have bb: "unat b < 2 ^ 32" using unsigned_less [of b] by simp
  have "unat (a - b) = unat a + 2 ^ 32 - unat b"
    using lt by (simp add: unat_sub_if_size word_size)
  with lt bb show "unat (a - b) = 2 ^ 32 - (unat b - unat a)" by simp
  show "a - b \<noteq> 0" using assms by simp
qed

lemma sint_nonneg_uint:
  assumes "0 \<le> sint (r :: u32)"
  shows "sint r = uint r"
proof -
  have "sint r < 2 ^ (LENGTH(32) - 1)" by (rule sint_lt)
  then have "sint r < 2 ^ LENGTH(32)" by simp
  with assms have "take_bit LENGTH(32) (sint r) = sint r" by (simp only: take_bit_int_eq_self)
  then show ?thesis by (simp only: uint_sint)
qed

subsection \<open>The loop body of readData\<close>

lemma copy_len_if:
  "(if (if l > b then b else l) > bs then bs else (if l > b then b else l))
     = min (min l b) (bs :: u32)"
  by (auto simp add: min_def)

lemma copy_len_le: "copy_len fs st \<le> rd_length st"
  by (auto simp add: copy_len_def min_def)

lemma lens_snoc: "lens (cs @ [c]) = lens cs + unat (c_len c)"
  by (simp add: lens_def)

text \<open>The body, with the three outcomes of a block that passes the first check named.\<close>

lemma readData_body_alt:
  "readData_body fs ino i st =
     (case at_index (datablocks ino) i of
        None \<Rightarrow> Inl OutOfBounds
      | Some d \<Rightarrow>
          if d \<le> numTotalDataBlocks fs then
            if numBlocks fs \<le> rawBlockId fs d
            then Inr (Return (- 1) (st\<lparr>calls := calls st @ [call_of fs d st]\<rparr>))
            else if rd_length st = copy_len fs st then Inr (Break (after_copy fs d st))
            else Inr (Continue (after_copy fs d st))
          else Inr (Return (- 1) st))"
  unfolding readData_body_def Let_def copy_len_if
  by (simp add: readBlock_def copy_len_def call_of_def after_copy_def split: option.splits)

lemma after_copy_length:
  "unat (rd_length (after_copy fs d st)) + unat (copy_len fs st) = unat (rd_length st)"
proof -
  have "unat (copy_len fs st) \<le> unat (rd_length st)"
    using copy_len_le [of fs st] by (simp add: word_le_nat_alt)
  moreover have "unat (rd_length st - copy_len fs st)
                   = unat (rd_length st) - unat (copy_len fs st)"
    using copy_len_le [of fs st] by (rule unat_sub)
  ultimately show ?thesis by (simp add: after_copy_def)
qed

lemma after_copy_inv:
  assumes "rd_inv L st"
  shows "rd_inv L (after_copy fs d st)"
proof -
  let ?n = "copy_len fs st"
  have le: "unat ?n \<le> unat (rd_length st)"
    using copy_len_le [of fs st] by (simp add: word_le_nat_alt)
  have sum: "unat (rd_read st) + unat (rd_length st) = unat L"
    and ls: "lens (calls st) = unat (rd_read st)"
    using assms by (simp_all add: rd_inv_def)
  have "unat L < 2 ^ LENGTH(32)" by (rule unsigned_less)
  with le sum have "unat (rd_read st) + unat ?n < 2 ^ LENGTH(32)" by linarith
  then have rd: "unat (rd_read st + ?n) = unat (rd_read st) + unat ?n"
    by (simp only: unat_add_lem)
  have ln: "unat (rd_length st - ?n) = unat (rd_length st) - unat ?n"
    using copy_len_le [of fs st] by (rule unat_sub)
  show ?thesis
    unfolding rd_inv_def using rd ln le sum ls
    by (simp add: after_copy_def lens_snoc call_of_def)
qed

lemma rd_init_inv: "rd_inv len (rd_init ino bs offset buf len)"
  by (simp add: rd_inv_def rd_init_def lens_def)

subsection \<open>The loop of readData\<close>

lemma readData_loop_inv:
  "rd_inv L st \<Longrightarrow> readData_loop fs ino i st = Inr (r, st') \<Longrightarrow>
     lens (calls st') \<le> unat L \<and> unat (rd_read st') \<le> unat L \<and> (r = - 1 \<or> r = rd_read st')"
proof (induction fs ino i st rule: readData_loop.induct)
  case (1 fs ino i st)
  have sum: "unat (rd_read st) + unat (rd_length st) = unat L"
    and ls: "lens (calls st) = unat (rd_read st)"
    using "1.prems"(1) by (simp_all add: rd_inv_def)
  show ?case
  proof (cases "i < numDataBlocks ino")
    case False
    with "1.prems"(2) have "r = rd_read st" "st' = st"
      by (auto simp add: readData_loop.simps [of fs ino i st])
    with sum ls show ?thesis by simp
  next
    case True
    from "1.prems"(2) True obtain c where c: "readData_body fs ino i st = Inr c"
      by (auto simp add: readData_loop.simps [of fs ino i st] split: sum.splits)
    show ?thesis
    proof (cases c)
      case (Return r0 s0)
      with c "1.prems"(2) True have rs: "r = r0" "st' = s0"
        by (auto simp add: readData_loop.simps [of fs ino i st])
      from c Return have "(r0 = - 1 \<and> s0 = st) \<or>
          (\<exists>d. r0 = - 1 \<and> s0 = st\<lparr>calls := calls st @ [call_of fs d st]\<rparr>)"
        by (auto simp add: readData_body_alt split: option.splits if_splits)
      then show ?thesis
      proof
        assume "r0 = - 1 \<and> s0 = st"
        with rs sum ls show ?thesis by simp
      next
        assume "\<exists>d. r0 = - 1 \<and> s0 = st\<lparr>calls := calls st @ [call_of fs d st]\<rparr>"
        then obtain d where d: "r0 = - 1" "s0 = st\<lparr>calls := calls st @ [call_of fs d st]\<rparr>"
          by blast
        have "unat (copy_len fs st) \<le> unat (rd_length st)"
          using copy_len_le [of fs st] by (simp add: word_le_nat_alt)
        with rs d sum ls show ?thesis by (simp add: lens_snoc call_of_def)
      qed
    next
      case (Break s0)
      with c "1.prems"(2) True have rs: "r = rd_read s0" "st' = s0"
        by (auto simp add: readData_loop.simps [of fs ino i st])
      from c Break obtain d where "s0 = after_copy fs d st"
        by (auto simp add: readData_body_alt split: option.splits if_splits)
      with after_copy_inv [OF "1.prems"(1)] have "rd_inv L s0" by simp
      with rs show ?thesis by (simp add: rd_inv_def)
    next
      case (Continue s0)
      with c "1.prems"(2) True have next_eq: "readData_loop fs ino (i + 1) s0 = Inr (r, st')"
        by (simp add: readData_loop.simps [of fs ino i st])
      from c Continue obtain d where "s0 = after_copy fs d st"
        by (auto simp add: readData_body_alt split: option.splits if_splits)
      with after_copy_inv [OF "1.prems"(1)] have "rd_inv L s0" by simp
      from "1.IH" [OF True c Continue this next_eq] show ?thesis .
    qed
  qed
qed

lemma readData_result_bounded:
  assumes "readData fs inode_idx offset buf len = Inr (r, buf', cs)"
  shows "lens cs \<le> unat len \<and> (0 \<le> sint r \<longrightarrow> sint r \<le> uint len)"
proof (cases "inode_idx \<le> numInodes fs")
  case False
  with assms have "cs = []" "r = - 1" by (simp_all add: readData_def)
  then show ?thesis by (simp add: lens_def)
next
  case True
  with assms obtain ino st where
    loop: "readData_loop fs ino (offset div BlockSize fs) (rd_init ino (BlockSize fs) offset buf len)
             = Inr (r, st)" and cs: "cs = calls st"
    by (auto simp add: readData_def split: option.splits sum.splits)
  from readData_loop_inv [OF rd_init_inv loop]
  have a: "lens (calls st) \<le> unat len" and b: "unat (rd_read st) \<le> unat len"
    and c: "r = - 1 \<or> r = rd_read st" by simp_all
  have "sint r \<le> uint len" if nn: "0 \<le> sint r"
  proof -
    from nn have "r \<noteq> - 1" by auto
    with c have "r = rd_read st" by simp
    moreover have "sint r = uint r" using nn by (rule sint_nonneg_uint)
    moreover have "uint (rd_read st) \<le> uint len"
      using b by (simp add: word_le_nat_alt [symmetric] word_le_def)
    ultimately show ?thesis by simp
  qed
  with a cs show ?thesis by simp
qed

text \<open>Both sides of the bound check on the inode index.\<close>

lemma readData_inode_above:
  assumes "numInodes fs < inode_idx"
  shows "readData fs inode_idx offset buf len = Inr (- 1, buf, [])"
proof -
  from assms have "\<not> inode_idx \<le> numInodes fs" by simp
  then show ?thesis by (simp add: readData_def)
qed

lemma readData_inode_one_past:
  "length (inodes fs) = unat (numInodes fs) \<Longrightarrow>
     readData fs (numInodes fs) offset buf len = Inl OutOfBounds"
  by (simp add: readData_def at_index_def)

subsection \<open>C strings and directory reads\<close>














subsection \<open>Evaluation on the example images\<close>

lemmas rd_eval = readData_def at_index_def readData_loop.simps readData_body_def rd_init_def
  readBlock_def rawBlockId_def memcpy_def rd_view_def fs_ex_def buf0_def


section \<open>The claims\<close>

subsection \<open>C1: readData and the inode index one past the table\<close>

text \<open>
  C1. Claim: every call \<open>readData(inode, offset, buf, length)\<close> with
  \<open>inode \<ge> numInodes\<close>, in particular with \<open>inode = numInodes\<close>, fails with \<open>-1\<close> and
  copies no block. The code tests \<open>inode <= numInodes\<close>. On the example image, which
  has two inodes, the call with inode index 2 passes that test and indexes the inode
  table one past its end; it does not return \<open>-1\<close>. From index 3 on the call is rejected
  as claimed (in general: \<open>readData_inode_one_past\<close>, \<open>readData_inode_above\<close>).
\<close>

theorem readData_inode_index_numInodes:
  "numInodes fs_ex = 2 \<and> length (inodes fs_ex) = 2
   \<and> readData fs_ex 2 0 buf0 10 = Inl OutOfBounds
   \<and> readData fs_ex 3 0 buf0 10 = Inr (- 1, buf0, [])"
  by (simp add: readData_def at_index_def fs_ex_def)

subsection \<open>C2: the length of one block copy\<close>

text \<open>
  C2. Claim: each pass of the block loop of \<open>readData\<close> copies
  \<open>min(length, bytesRemaining, BlockSize - blockLocalOffset)\<close> bytes, so that every call
  of \<open>readBlock\<close> has \<open>blockOffset + len \<le> BlockSize\<close>. The code bounds \<open>len\<close> by
  \<open>BlockSize\<close>, not by \<open>BlockSize - realOffset\<close> (\<open>readData_body_alt\<close>,
  \<open>copy_len\<close>). On the example image, reading 4096 bytes of \<open>big\<close> (inode 1, data
  blocks 1 and 3) from offset 1 makes one call of \<open>readBlock\<close>, for data block 1 at
  block offset 1 with \<open>len = 4096\<close>, where the claim gives \<open>len = 4095\<close>. The copy runs
  one byte past the block: byte 4095 of the buffer is 5, the first byte of raw block 5
  (data block 2, which is not part of the file), where the file has 6, the first byte of
  data block 3.
\<close>

theorem readData_copy_crosses_block:
  "rd_view [0, 4094, 4095, 4096] (readData fs_ex 1 1 buf0 4096)
     = Inr (4096, [4, 4, 5, 0],
            [\<lparr>c_datablockId = 1, c_offset = 1, c_dst = 0, c_len = 4096\<rparr>])
   \<and> unat (1 :: u32) + unat (4096 :: u32) > unat (BlockSize fs_ex)
   \<and> min (4096 :: u32) (min (8192 - 1) (BlockSize fs_ex - 1 mod BlockSize fs_ex)) = 4095
   \<and> imageStartingAddress fs_ex (unat (rawBlockId fs_ex 3 * BlockSize fs_ex)) = 6"
  by (simp add: rd_eval)

subsection \<open>C3: reading a directory\<close>




subsection \<open>C4: an offset past the end of the file\<close>

text \<open>
  C4. For a valid inode index and an offset greater than the size of the inode,
  \<open>readData\<close> enters its loop with \<open>bytesRemaining = inode.size - offset\<close> computed in
  unsigned 32-bit arithmetic: the subtraction wraps, \<open>bytesRemaining\<close> is
  \<open>(size - offset) mod 2^32 = 2^32 - (offset - size)\<close>, which is not 0, and no error is
  signalled for it.
\<close>

theorem readData_offset_past_end:
  assumes "inode_idx \<le> numInodes fs"
    and "at_index (inodes fs) inode_idx = Some ino"
    and "isize ino < offset"
  shows "readData fs inode_idx offset buf len =
           (case readData_loop fs ino (offset div BlockSize fs)
                   \<lparr>rd_length = len, bytesRemaining = isize ino - offset, rd_read = 0,
                    realOffset = offset mod BlockSize fs, rd_buf = buf, calls = []\<rparr> of
              Inl e \<Rightarrow> Inl e
            | Inr (r, st) \<Rightarrow> Inr (r, rd_buf st, calls st))
         \<and> uint (isize ino - offset) = (uint (isize ino) - uint offset) mod 2 ^ 32
         \<and> unat (isize ino - offset) = 2 ^ 32 - (unat offset - unat (isize ino))
         \<and> isize ino - offset \<noteq> 0"
  using assms(1,2) word_sub_wraps [OF assms(3)]
  by (simp add: readData_def rd_init_def)

theorem readData_offset_past_end_witness:
  "(0 :: u32) \<le> numInodes fs_ex
   \<and> at_index (inodes fs_ex) 0 = Some \<lparr>isize = 10, numDataBlocks = 1, datablocks = [0]\<rparr>
   \<and> isize \<lparr>isize = 10, numDataBlocks = 1, datablocks = [0]\<rparr> < (11 :: u32)
   \<and> unat (isize \<lparr>isize = 10, numDataBlocks = 1, datablocks = [0]\<rparr> - (11 :: u32)) = 4294967295
   \<and> rd_view [0, 4, 5] (readData fs_ex 0 11 buf0 5)
       = Inr (5, [3, 3, 0], [\<lparr>c_datablockId = 0, c_offset = 11, c_dst = 0, c_len = 5\<rparr>])"
proof -
  have h1: "(0 :: u32) \<le> numInodes fs_ex" by simp
  have h2: "at_index (inodes fs_ex) 0 = Some \<lparr>isize = 10, numDataBlocks = 1, datablocks = [0]\<rparr>"
    by (simp add: fs_ex_def at_index_def)
  have h3: "isize \<lparr>isize = 10, numDataBlocks = 1, datablocks = [0]\<rparr> < (11 :: u32)" by simp
  have r: "rd_view [0, 4, 5] (readData fs_ex 0 11 buf0 5)
       = Inr (5, [3, 3, 0], [\<lparr>c_datablockId = 0, c_offset = 11, c_dst = 0, c_len = 5\<rparr>])"
    by (simp add: rd_eval)
  from readData_offset_past_end [OF h1 h2 h3, of buf0 5] h1 h2 h3 r show ?thesis by simp
qed

subsection \<open>C5: readBlock\<close>

text \<open>
  C5. \<open>readBlock(logicalDataBlockId, blockOffset, buf, len)\<close> computes
  \<open>rawBlockId = logicalDataBlockId + numInodes + 1\<close>. If \<open>rawBlockId \<ge> numBlocks\<close> it
  returns false and leaves the buffer as it is. Otherwise it returns true, the \<open>len\<close>
  bytes of the buffer from the position given are the bytes of the image from offset
  \<open>rawBlockId * BlockSize + blockOffset\<close> on, and the rest of the buffer is unchanged.
  The product is the 32-bit one of the source; it is the product of the two numbers
  whenever \<open>numBlocks * BlockSize\<close> is below \<open>2^32\<close>, as for every image that fits the
  address space.
\<close>

theorem readBlock_spec:
  "rawBlockId fs datablockId = datablockId + numInodes fs + 1
   \<and> (numBlocks fs \<le> rawBlockId fs datablockId \<longrightarrow>
          readBlock fs datablockId offset buf dst len = (False, buf))
   \<and> (rawBlockId fs datablockId < numBlocks fs \<longrightarrow>
        (\<exists>buf'. readBlock fs datablockId offset buf dst len = (True, buf')
           \<and> (\<forall>k < unat len. buf' (dst + k) =
                 imageStartingAddress fs (unat (rawBlockId fs datablockId * BlockSize fs) + unat offset + k))
           \<and> (\<forall>a. a < dst \<or> dst + unat len \<le> a \<longrightarrow> buf' a = buf a)))
   \<and> (rawBlockId fs datablockId < numBlocks fs \<and>
        unat (numBlocks fs) * unat (BlockSize fs) < 2 ^ 32 \<longrightarrow>
          unat (rawBlockId fs datablockId * BlockSize fs)
            = unat (rawBlockId fs datablockId) * unat (BlockSize fs))"
proof (intro conjI impI)
  show "rawBlockId fs datablockId = datablockId + numInodes fs + 1"
    by (simp add: rawBlockId_def)
next
  assume "numBlocks fs \<le> rawBlockId fs datablockId"
  then show "readBlock fs datablockId offset buf dst len = (False, buf)"
    by (simp add: readBlock_def)
next
  assume lt: "rawBlockId fs datablockId < numBlocks fs"
  then have "\<not> numBlocks fs \<le> rawBlockId fs datablockId" by simp
  then show "\<exists>buf'. readBlock fs datablockId offset buf dst len = (True, buf')
           \<and> (\<forall>k < unat len. buf' (dst + k) =
                 imageStartingAddress fs (unat (rawBlockId fs datablockId * BlockSize fs) + unat offset + k))
           \<and> (\<forall>a. a < dst \<or> dst + unat len \<le> a \<longrightarrow> buf' a = buf a)"
    by (auto simp add: readBlock_def memcpy_def)
next
  assume "rawBlockId fs datablockId < numBlocks fs \<and>
        unat (numBlocks fs) * unat (BlockSize fs) < 2 ^ 32"
  then show "unat (rawBlockId fs datablockId * BlockSize fs)
            = unat (rawBlockId fs datablockId) * unat (BlockSize fs)"
    by (intro rawBlock_mult_no_overflow [where n = "numBlocks fs"]) simp_all
qed

theorem readBlock_spec_witness:
  "rawBlockId fs_ex 0 = 3 \<and> rawBlockId fs_ex 0 < numBlocks fs_ex
   \<and> unat (numBlocks fs_ex) * unat (BlockSize fs_ex) < 2 ^ 32
   \<and> unat (rawBlockId fs_ex 0 * BlockSize fs_ex) = 12288
   \<and> fst (readBlock fs_ex 0 2 buf0 5 4)
   \<and> map (snd (readBlock fs_ex 0 2 buf0 5 4)) [4, 5, 6, 7, 8, 9] = [0, 50, 51, 52, 53, 0]
   \<and> numBlocks fs_ex \<le> rawBlockId fs_ex 4
   \<and> readBlock fs_ex 4 2 buf0 5 4 = (False, buf0)"
proof -
  have lt: "rawBlockId fs_ex 0 < numBlocks fs_ex" by (simp add: rawBlockId_def fs_ex_def)
  have sz: "unat (numBlocks fs_ex) * unat (BlockSize fs_ex) < 2 ^ 32" by (simp add: fs_ex_def)
  have ge: "numBlocks fs_ex \<le> rawBlockId fs_ex 4" by (simp add: rawBlockId_def fs_ex_def)
  note t = readBlock_spec [of fs_ex 0 2 buf0 5 4]
  from t have raw: "rawBlockId fs_ex 0 = 3" by (simp add: fs_ex_def)
  from t lt sz have prod: "unat (rawBlockId fs_ex 0 * BlockSize fs_ex) = 12288"
    by (simp add: raw fs_ex_def)
  from t lt obtain buf' where
    ok: "readBlock fs_ex 0 2 buf0 5 4 = (True, buf')"
    and cp: "\<forall>k < unat (4 :: u32). buf' (5 + k)
               = imageStartingAddress fs_ex (unat (rawBlockId fs_ex 0 * BlockSize fs_ex) + unat (2 :: u32) + k)"
    and rest: "\<forall>a. a < 5 \<or> 5 + unat (4 :: u32) \<le> a \<longrightarrow> buf' a = buf0 a"
    by blast
  from cp [rule_format, of 0] cp [rule_format, of 1] cp [rule_format, of 2] cp [rule_format, of 3]
  have "buf' 5 = imageStartingAddress fs_ex 12290" "buf' 6 = imageStartingAddress fs_ex 12291"
    "buf' 7 = imageStartingAddress fs_ex 12292" "buf' 8 = imageStartingAddress fs_ex 12293"
    by (simp_all add: prod)
  moreover from rest have "buf' 4 = buf0 4" "buf' 9 = buf0 9" by simp_all
  ultimately have bytes: "map buf' [4, 5, 6, 7, 8, 9] = [0, 50, 51, 52, 53, 0]"
    by (simp add: fs_ex_def buf0_def)
  from readBlock_spec [of fs_ex 4 2 buf0 5 4] ge
  have no: "readBlock fs_ex 4 2 buf0 5 4 = (False, buf0)" by simp
  from raw lt sz prod ok bytes ge no show ?thesis by simp
qed

subsection \<open>C6: open\<close>

text \<open>
  C6. \<open>open\<close> returns false (NotFound) exactly when the file name has no entry in the
  hash index \<open>dentryIndexOfFilename\<close>. When it succeeds, the descriptor it allocates
  carries the file type of the dentry the index gives for the name and, unless that
  dentry is a directory, the dentry's inode index; and it succeeds for every name whose
  index entry is a position of the dentry table.
\<close>

theorem open_found_iff:
  "(kiss_open Filename fresh fs fname = Inr None
      \<longleftrightarrow> dentryIndexOfFilename fs (Filename fname) = None)
   \<and> (\<forall>data. kiss_open Filename fresh fs fname = Inr (Some data) \<longrightarrow>
        (\<exists>dentryIdx d. dentryIndexOfFilename fs (Filename fname) = Some dentryIdx
           \<and> at_index (dentries fs) dentryIdx = Some d
           \<and> fd_filetype data = filetype d
           \<and> (filetype d \<noteq> DIRECTORY \<longrightarrow> fd_inode data = inode d)))
   \<and> (\<forall>dentryIdx d. dentryIndexOfFilename fs (Filename fname) = Some dentryIdx
           \<and> at_index (dentries fs) dentryIdx = Some d \<longrightarrow>
        (\<exists>data. kiss_open Filename fresh fs fname = Inr (Some data)))"
  by (auto simp add: kiss_open_def Let_def split: option.splits if_splits)

theorem open_found_iff_witness:
  "dentryIndexOfFilename fs_ex ''nothing'' = None
   \<and> kiss_open id fresh0 fs_ex ''nothing'' = Inr None
   \<and> dentryIndexOfFilename fs_ex ''hello.txt'' = Some 1
   \<and> at_index (dentries fs_ex) 1
        = Some \<lparr>filename = [104, 101, 108, 108, 111, 46, 116, 120, 116] @ replicate 23 0,
                 filetype = 2, inode = 0\<rparr>
   \<and> kiss_open id fresh0 fs_ex ''hello.txt''
        = Inr (Some \<lparr>fd_filetype = 2, fd_inode = 0,
                      dentryData = \<lparr>base = [], idx = 0, maxIdx = 0\<rparr>\<rparr>)"
proof -
  have a: "dentryIndexOfFilename fs_ex ''nothing'' = None" by (simp add: fs_ex_def)
  have b: "dentryIndexOfFilename fs_ex ''hello.txt'' = Some 1" by (simp add: fs_ex_def)
  have c: "at_index (dentries fs_ex) 1
        = Some \<lparr>filename = [104, 101, 108, 108, 111, 46, 116, 120, 116] @ replicate 23 0,
                 filetype = 2, inode = 0\<rparr>"
    by (simp add: fs_ex_def at_index_def)
  from open_found_iff [of id fresh0 fs_ex "''nothing''"] a
  have d: "kiss_open id fresh0 fs_ex ''nothing'' = Inr None" by simp
  from open_found_iff [of id fresh0 fs_ex "''hello.txt''"] b c
  obtain data where e: "kiss_open id fresh0 fs_ex ''hello.txt'' = Inr (Some data)"
    by auto
  then have "data = \<lparr>fd_filetype = 2, fd_inode = 0,
                      dentryData = \<lparr>base = [], idx = 0, maxIdx = 0\<rparr>\<rparr>"
    by (simp add: kiss_open_def fs_ex_def at_index_def fresh0_def DIRECTORY_def)
  with a b c d e show ?thesis by simp
qed

subsection \<open>C7: write\<close>

text \<open>
  C7. For every descriptor, offset, buffer and length, \<open>write\<close> returns \<open>-1\<close>
  (ReadOnly) and leaves the filesystem object and the descriptor as they are.
\<close>

theorem write_read_only:
  "kiss_write fs fdData offset buf len = (- 1, fs, fdData)
   \<and> sint (fst (kiss_write fs fdData offset buf len)) = - 1"
  by (simp add: kiss_write_def)

subsection \<open>C8: canSeek and getFileSize\<close>

text \<open>
  C8. \<open>canSeek\<close> is true exactly for a descriptor whose file type is \<open>NORMAL_FILE\<close>.
  \<open>getFileSize\<close> returns nothing for every other file type and, for \<open>NORMAL_FILE\<close>,
  the size of the inode of the descriptor (an inode of the table).
\<close>

theorem canSeek_getFileSize:
  "(canSeek fs fdData \<longleftrightarrow> fd_filetype fdData = NORMAL_FILE)
   \<and> (fd_filetype fdData \<noteq> NORMAL_FILE \<longrightarrow> getFileSize fs fdData = Inr None)
   \<and> (\<forall>ino. fd_filetype fdData = NORMAL_FILE
          \<and> at_index (inodes fs) (fd_inode fdData) = Some ino \<longrightarrow>
        getFileSize fs fdData = Inr (Some (isize ino)))"
  by (simp add: canSeek_def getFileSize_def)

theorem canSeek_getFileSize_witness:
  "canSeek fs_ex \<lparr>fd_filetype = 2, fd_inode = 1, dentryData = \<lparr>base = [], idx = 0, maxIdx = 0\<rparr>\<rparr>
   \<and> getFileSize fs_ex \<lparr>fd_filetype = 2, fd_inode = 1,
                          dentryData = \<lparr>base = [], idx = 0, maxIdx = 0\<rparr>\<rparr> = Inr (Some 8192)
   \<and> canSeek fs_ex (dir_fd fs_ex 0) = False
   \<and> getFileSize fs_ex (dir_fd fs_ex 0) = Inr None"
proof -
  let ?f = "\<lparr>fd_filetype = 2, fd_inode = 1, dentryData = \<lparr>base = [], idx = 0, maxIdx = 0\<rparr>\<rparr>"
  have a: "fd_filetype ?f = NORMAL_FILE" by (simp add: NORMAL_FILE_def)
  have b: "at_index (inodes fs_ex) (fd_inode ?f)
             = Some \<lparr>isize = 8192, numDataBlocks = 2, datablocks = [1, 3]\<rparr>"
    by (simp add: fs_ex_def at_index_def)
  have c: "fd_filetype (dir_fd fs_ex 0) \<noteq> NORMAL_FILE" by (simp add: dir_fd_def NORMAL_FILE_def)
  from canSeek_getFileSize [of fs_ex ?f] a b
  have "canSeek fs_ex ?f" "getFileSize fs_ex ?f = Inr (Some 8192)" by simp_all
  moreover from canSeek_getFileSize [of fs_ex "dir_fd fs_ex 0"] c
  have "\<not> canSeek fs_ex (dir_fd fs_ex 0)" "getFileSize fs_ex (dir_fd fs_ex 0) = Inr None"
    by simp_all
  ultimately show ?thesis by simp
qed

subsection \<open>C9: the check of a data-block id against numTotalDataBlocks\<close>

text \<open>
  C9. In a pass of the block loop of \<open>readData\<close> for the data-block id \<open>d\<close>: if
  \<open>d > numTotalDataBlocks\<close> the pass returns \<open>-1\<close> without calling \<open>readBlock\<close> (no
  variable of the loop changes), and so does \<open>readData\<close>'s loop. If
  \<open>d \<le> numTotalDataBlocks\<close>, and so for \<open>d = numTotalDataBlocks\<close>, the pass goes on to
  \<open>readBlock\<close> for \<open>d\<close>, at the current block offset and buffer position and with the
  length \<open>min(length, bytesRemaining, BlockSize)\<close>, and what \<open>readBlock\<close> returns
  decides how it ends. The check of \<open>readBlock\<close> against \<open>numBlocks\<close> comes on top of
  the first one: with \<open>rawBlockId \<ge> numBlocks\<close> the pass returns \<open>-1\<close> and the buffer is
  as before; with \<open>rawBlockId < numBlocks\<close> the bytes of the block are in the buffer, the
  counters have moved by the length, and the loop stops with the bytes read when nothing
  more is asked for and goes to the next block otherwise.
\<close>

theorem readData_datablock_precheck:
  assumes "at_index (datablocks ino) i = Some d"
  shows "(numTotalDataBlocks fs < d \<longrightarrow>
            readData_body fs ino i st = Inr (Return (- 1) st)
            \<and> (i < numDataBlocks ino \<longrightarrow> readData_loop fs ino i st = Inr (- 1, st)))
       \<and> (d \<le> numTotalDataBlocks fs \<longrightarrow>
            (\<exists>c. readData_body fs ino i st = Inr c
                \<and> calls (ctl_state c) = calls st @ [call_of fs d st]))
       \<and> (d \<le> numTotalDataBlocks fs \<and> numBlocks fs \<le> rawBlockId fs d \<longrightarrow>
            readData_body fs ino i st
              = Inr (Return (- 1) (st\<lparr>calls := calls st @ [call_of fs d st]\<rparr>)))
       \<and> c_datablockId (call_of fs d st) = d
       \<and> copy_len fs st = min (min (rd_length st) (bytesRemaining st)) (BlockSize fs)
       \<and> (d \<le> numTotalDataBlocks fs \<longrightarrow>
            readData_body fs ino i st =
              (case readBlock fs d (realOffset st) (rd_buf st) (unat (rd_read st))
                      (copy_len fs st) of
                 (False, b) \<Rightarrow>
                   Inr (Return (- 1)
                          (st\<lparr>calls := calls st @ [call_of fs d st], rd_buf := b\<rparr>))
               | (True, b) \<Rightarrow>
                   Inr ((if rd_length st = copy_len fs st then Break else Continue)
                          (st\<lparr>calls := calls st @ [call_of fs d st], rd_buf := b,
                              rd_length := rd_length st - copy_len fs st,
                              bytesRemaining := bytesRemaining st - copy_len fs st,
                              rd_read := rd_read st + copy_len fs st,
                              realOffset := 0\<rparr>))))
       \<and> (d \<le> numTotalDataBlocks fs \<and> rawBlockId fs d < numBlocks fs \<longrightarrow>
            readData_body fs ino i st
              = Inr ((if rd_length st = copy_len fs st then Break else Continue)
                       (after_copy fs d st))
            \<and> readBlock fs d (realOffset st) (rd_buf st) (unat (rd_read st)) (copy_len fs st)
                = (True, rd_buf (after_copy fs d st))
            \<and> (\<forall>k < unat (copy_len fs st).
                  rd_buf (after_copy fs d st) (unat (rd_read st) + k)
                    = imageStartingAddress fs
                        (unat (rawBlockId fs d * BlockSize fs) + unat (realOffset st) + k))
            \<and> rd_read (after_copy fs d st) = rd_read st + copy_len fs st
            \<and> rd_length (after_copy fs d st) = rd_length st - copy_len fs st
            \<and> (i < numDataBlocks ino \<longrightarrow>
                 readData_loop fs ino i st
                   = (if rd_length st = copy_len fs st
                      then Inr (rd_read (after_copy fs d st), after_copy fs d st)
                      else readData_loop fs ino (i + 1) (after_copy fs d st))))"
proof -
  have rej: "readData_body fs ino i st = Inr (Return (- 1) st)
            \<and> (i < numDataBlocks ino \<longrightarrow> readData_loop fs ino i st = Inr (- 1, st))"
    if gt: "numTotalDataBlocks fs < d"
  proof -
    from gt have "\<not> d \<le> numTotalDataBlocks fs" by simp
    with assms have body: "readData_body fs ino i st = Inr (Return (- 1) st)"
      by (simp add: readData_body_alt)
    then show ?thesis by (simp add: readData_loop.simps [of fs ino i st])
  qed
  have called: "\<exists>c. readData_body fs ino i st = Inr c
                \<and> calls (ctl_state c) = calls st @ [call_of fs d st]"
    if "d \<le> numTotalDataBlocks fs"
    using that assms by (simp add: readData_body_alt after_copy_def)
  have fail: "readData_body fs ino i st
              = Inr (Return (- 1) (st\<lparr>calls := calls st @ [call_of fs d st]\<rparr>))"
    if "d \<le> numTotalDataBlocks fs \<and> numBlocks fs \<le> rawBlockId fs d"
    using that assms by (simp add: readData_body_alt)
  have id: "c_datablockId (call_of fs d st) = d" by (simp add: call_of_def)
  have len: "copy_len fs st = min (min (rd_length st) (bytesRemaining st)) (BlockSize fs)"
    by (simp add: copy_len_def)
  have by_readBlock: "readData_body fs ino i st =
              (case readBlock fs d (realOffset st) (rd_buf st) (unat (rd_read st))
                      (copy_len fs st) of
                 (False, b) \<Rightarrow>
                   Inr (Return (- 1)
                          (st\<lparr>calls := calls st @ [call_of fs d st], rd_buf := b\<rparr>))
               | (True, b) \<Rightarrow>
                   Inr ((if rd_length st = copy_len fs st then Break else Continue)
                          (st\<lparr>calls := calls st @ [call_of fs d st], rd_buf := b,
                              rd_length := rd_length st - copy_len fs st,
                              bytesRemaining := bytesRemaining st - copy_len fs st,
                              rd_read := rd_read st + copy_len fs st,
                              realOffset := 0\<rparr>)))"
    if "d \<le> numTotalDataBlocks fs"
    using that assms
    by (simp add: readData_body_alt readBlock_def after_copy_def)
  have copied: "readData_body fs ino i st
              = Inr ((if rd_length st = copy_len fs st then Break else Continue)
                       (after_copy fs d st))
            \<and> readBlock fs d (realOffset st) (rd_buf st) (unat (rd_read st)) (copy_len fs st)
                = (True, rd_buf (after_copy fs d st))
            \<and> (\<forall>k < unat (copy_len fs st).
                  rd_buf (after_copy fs d st) (unat (rd_read st) + k)
                    = imageStartingAddress fs
                        (unat (rawBlockId fs d * BlockSize fs) + unat (realOffset st) + k))
            \<and> rd_read (after_copy fs d st) = rd_read st + copy_len fs st
            \<and> rd_length (after_copy fs d st) = rd_length st - copy_len fs st
            \<and> (i < numDataBlocks ino \<longrightarrow>
                 readData_loop fs ino i st
                   = (if rd_length st = copy_len fs st
                      then Inr (rd_read (after_copy fs d st), after_copy fs d st)
                      else readData_loop fs ino (i + 1) (after_copy fs d st)))"
    if h: "d \<le> numTotalDataBlocks fs \<and> rawBlockId fs d < numBlocks fs"
  proof -
    from h have le: "d \<le> numTotalDataBlocks fs" and nge: "\<not> numBlocks fs \<le> rawBlockId fs d"
      by (simp_all add: not_le)
    from le nge assms have body: "readData_body fs ino i st
              = Inr ((if rd_length st = copy_len fs st then Break else Continue)
                       (after_copy fs d st))"
      by (simp add: readData_body_alt)
    from nge have rb: "readBlock fs d (realOffset st) (rd_buf st) (unat (rd_read st))
                         (copy_len fs st) = (True, rd_buf (after_copy fs d st))"
      by (simp add: readBlock_def after_copy_def)
    have bytes: "\<forall>k < unat (copy_len fs st).
                  rd_buf (after_copy fs d st) (unat (rd_read st) + k)
                    = imageStartingAddress fs
                        (unat (rawBlockId fs d * BlockSize fs) + unat (realOffset st) + k)"
      by (simp add: after_copy_def memcpy_def)
    have cnt: "rd_read (after_copy fs d st) = rd_read st + copy_len fs st"
      "rd_length (after_copy fs d st) = rd_length st - copy_len fs st"
      by (simp_all add: after_copy_def)
    have loop: "readData_loop fs ino i st
                   = (if rd_length st = copy_len fs st
                      then Inr (rd_read (after_copy fs d st), after_copy fs d st)
                      else readData_loop fs ino (i + 1) (after_copy fs d st))"
      if "i < numDataBlocks ino"
      using that body by (simp add: readData_loop.simps [of fs ino i st])
    from body rb bytes cnt loop show ?thesis by simp
  qed
  show ?thesis
    apply (rule conjI, rule impI, erule rej)
    apply (rule conjI, rule impI, erule called)
    apply (rule conjI, rule impI, erule fail)
    apply (rule conjI, rule id)
    apply (rule conjI, rule len)
    apply (rule conjI, rule impI, erule by_readBlock)
    apply (rule impI, erule copied)
    done
qed

text \<open>
  On the example image (\<open>numTotalDataBlocks = 4\<close>, \<open>numBlocks = 7\<close>), for an inode whose
  blocks are 5 and 4: block 5 is rejected without a call, block 4 is handed to
  \<open>readBlock\<close>, whose own check rejects it. On the same image with a boot block that
  says \<open>numTotalDataBlocks = 3\<close>, data block 3 passes the first check, and eight of its
  bytes are read; with a boot block that says 2 the same read returns \<open>-1\<close> and makes no
  call.
\<close>

theorem readData_datablock_precheck_witness:
  "at_index [5, 4 :: u32] 0 = Some 5 \<and> numTotalDataBlocks fs_ex < 5
   \<and> readData_body fs_ex \<lparr>isize = 8192, numDataBlocks = 2, datablocks = [5, 4]\<rparr> 0
        (rd_init \<lparr>isize = 8192, numDataBlocks = 2, datablocks = [5, 4]\<rparr> 4096 0 buf0 8)
       = Inr (Return (- 1)
           (rd_init \<lparr>isize = 8192, numDataBlocks = 2, datablocks = [5, 4]\<rparr> 4096 0 buf0 8))
   \<and> readData_loop fs_ex \<lparr>isize = 8192, numDataBlocks = 2, datablocks = [5, 4]\<rparr> 0
        (rd_init \<lparr>isize = 8192, numDataBlocks = 2, datablocks = [5, 4]\<rparr> 4096 0 buf0 8)
       = Inr (- 1, rd_init \<lparr>isize = 8192, numDataBlocks = 2, datablocks = [5, 4]\<rparr> 4096 0 buf0 8)
   \<and> at_index [5, 4 :: u32] 1 = Some 4 \<and> (4 :: u32) \<le> numTotalDataBlocks fs_ex
   \<and> numBlocks fs_ex \<le> rawBlockId fs_ex 4
   \<and> readData_body fs_ex \<lparr>isize = 8192, numDataBlocks = 2, datablocks = [5, 4]\<rparr> 1
        (rd_init \<lparr>isize = 8192, numDataBlocks = 2, datablocks = [5, 4]\<rparr> 4096 0 buf0 8)
       = Inr (Return (- 1)
           ((rd_init \<lparr>isize = 8192, numDataBlocks = 2, datablocks = [5, 4]\<rparr> 4096 0 buf0 8)
              \<lparr>calls := [\<lparr>c_datablockId = 4, c_offset = 0, c_dst = 0, c_len = 8\<rparr>]\<rparr>))
   \<and> at_index [3 :: u32] 0 = Some 3
   \<and> (3 :: u32) \<le> numTotalDataBlocks (fs_ex\<lparr>numTotalDataBlocks := 3\<rparr>)
   \<and> rawBlockId (fs_ex\<lparr>numTotalDataBlocks := 3\<rparr>) 3 < numBlocks (fs_ex\<lparr>numTotalDataBlocks := 3\<rparr>)
   \<and> readData_body (fs_ex\<lparr>numTotalDataBlocks := 3\<rparr>)
        \<lparr>isize = 8192, numDataBlocks = 1, datablocks = [3]\<rparr> 0
        (rd_init \<lparr>isize = 8192, numDataBlocks = 1, datablocks = [3]\<rparr> 4096 0 buf0 8)
       = Inr (Break (after_copy (fs_ex\<lparr>numTotalDataBlocks := 3\<rparr>) 3
           (rd_init \<lparr>isize = 8192, numDataBlocks = 1, datablocks = [3]\<rparr> 4096 0 buf0 8)))
   \<and> map (rd_buf (after_copy (fs_ex\<lparr>numTotalDataBlocks := 3\<rparr>) 3
           (rd_init \<lparr>isize = 8192, numDataBlocks = 1, datablocks = [3]\<rparr> 4096 0 buf0 8)))
         [0, 7, 8] = [6, 6, 0]
   \<and> readData_loop (fs_ex\<lparr>numTotalDataBlocks := 3\<rparr>)
        \<lparr>isize = 8192, numDataBlocks = 1, datablocks = [3]\<rparr> 0
        (rd_init \<lparr>isize = 8192, numDataBlocks = 1, datablocks = [3]\<rparr> 4096 0 buf0 8)
       = Inr (8, after_copy (fs_ex\<lparr>numTotalDataBlocks := 3\<rparr>) 3
           (rd_init \<lparr>isize = 8192, numDataBlocks = 1, datablocks = [3]\<rparr> 4096 0 buf0 8))
   \<and> rd_view [0, 7, 8] (readData (fs_ex\<lparr>numTotalDataBlocks := 3\<rparr>) 1 4096 buf0 8)
       = Inr (8, [6, 6, 0], [\<lparr>c_datablockId = 3, c_offset = 0, c_dst = 0, c_len = 8\<rparr>])
   \<and> rd_view [0, 7, 8] (readData (fs_ex\<lparr>numTotalDataBlocks := 2\<rparr>) 1 4096 buf0 8)
       = Inr (- 1, [0, 0, 0], [])"
proof -
  let ?ino = "\<lparr>isize = 8192, numDataBlocks = 2, datablocks = [5, 4]\<rparr>"
  let ?st = "rd_init ?ino 4096 0 buf0 8"
  have a0: "at_index (datablocks ?ino) 0 = Some 5" by (simp add: at_index_def)
  have a1: "at_index (datablocks ?ino) 1 = Some 4" by (simp add: at_index_def)
  have gt: "numTotalDataBlocks fs_ex < 5" by (simp add: fs_ex_def)
  have le: "(4 :: u32) \<le> numTotalDataBlocks fs_ex" by (simp add: fs_ex_def)
  have ge: "numBlocks fs_ex \<le> rawBlockId fs_ex 4" by (simp add: rawBlockId_def fs_ex_def)
  have lt: "(0 :: u32) < numDataBlocks ?ino" by simp
  from readData_datablock_precheck [OF a0, of fs_ex ?st] gt lt
  have r0: "readData_body fs_ex ?ino 0 ?st = Inr (Return (- 1) ?st)"
    "readData_loop fs_ex ?ino 0 ?st = Inr (- 1, ?st)"
    by simp_all
  from readData_datablock_precheck [OF a1, of fs_ex ?st] le ge
  have "readData_body fs_ex ?ino 1 ?st
          = Inr (Return (- 1) (?st\<lparr>calls := calls ?st @ [call_of fs_ex 4 ?st]\<rparr>))"
    by simp
  then have r1: "readData_body fs_ex ?ino 1 ?st
       = Inr (Return (- 1)
           (?st\<lparr>calls := [\<lparr>c_datablockId = 4, c_offset = 0, c_dst = 0, c_len = 8\<rparr>]\<rparr>))"
    by (simp add: call_of_def copy_len_def rd_init_def fs_ex_def)
  let ?fs = "fs_ex\<lparr>numTotalDataBlocks := 3\<rparr>"
  let ?ino3 = "\<lparr>isize = 8192, numDataBlocks = 1, datablocks = [3]\<rparr>"
  let ?st3 = "rd_init ?ino3 4096 0 buf0 8"
  have a3: "at_index (datablocks ?ino3) 0 = Some 3" by (simp add: at_index_def)
  have le3: "(3 :: u32) \<le> numTotalDataBlocks ?fs" by simp
  have lt3: "rawBlockId ?fs 3 < numBlocks ?fs" by (simp add: rawBlockId_def fs_ex_def)
  have n3: "(0 :: u32) < numDataBlocks ?ino3" by simp
  have vals: "copy_len ?fs ?st3 = 8" "rd_length ?st3 = 8" "rd_read ?st3 = 0"
    "realOffset ?st3 = 0" "unat (rawBlockId ?fs 3 * BlockSize fs_ex) = 24576"
    by (simp_all add: copy_len_def rd_init_def rawBlockId_def fs_ex_def)
  note c = readData_datablock_precheck [OF a3, of ?fs ?st3, THEN conjunct2, THEN conjunct2,
      THEN conjunct2, THEN conjunct2, THEN conjunct2, THEN conjunct2, rule_format,
      OF conjI [OF le3 lt3]]
  from c [THEN conjunct1]
  have body3: "readData_body ?fs ?ino3 0 ?st3 = Inr (Break (after_copy ?fs 3 ?st3))"
    by (simp add: vals)
  from c [THEN conjunct2, THEN conjunct2, THEN conjunct1]
  have "rd_buf (after_copy ?fs 3 ?st3) (0 + 0) = imageStartingAddress ?fs (24576 + 0 + 0)"
    "rd_buf (after_copy ?fs 3 ?st3) (0 + 7) = imageStartingAddress ?fs (24576 + 0 + 7)"
    by (simp_all add: vals)
  moreover have "rd_buf (after_copy ?fs 3 ?st3) 8 = 0"
    by (simp add: after_copy_def memcpy_def vals) (simp add: rd_init_def buf0_def)
  ultimately have bytes3: "map (rd_buf (after_copy ?fs 3 ?st3)) [0, 7, 8] = [6, 6, 0]"
    by (simp add: fs_ex_def)
  from c [THEN conjunct2, THEN conjunct2, THEN conjunct2, THEN conjunct1]
  have "rd_read (after_copy ?fs 3 ?st3) = 8" by (simp add: vals)
  with c [THEN conjunct2, THEN conjunct2, THEN conjunct2, THEN conjunct2, THEN conjunct2] n3
  have loop3: "readData_loop ?fs ?ino3 0 ?st3 = Inr (8, after_copy ?fs 3 ?st3)"
    by (simp add: vals)
  have rd3: "rd_view [0, 7, 8] (readData ?fs 1 4096 buf0 8)
       = Inr (8, [6, 6, 0], [\<lparr>c_datablockId = 3, c_offset = 0, c_dst = 0, c_len = 8\<rparr>])"
    by (simp add: rd_eval)
  have rd2: "rd_view [0, 7, 8] (readData (fs_ex\<lparr>numTotalDataBlocks := 2\<rparr>) 1 4096 buf0 8)
       = Inr (- 1, [0, 0, 0], [])"
    by (simp add: rd_eval)
  from a0 a1 gt le ge r0 r1 a3 le3 lt3 body3 bytes3 loop3 rd3 rd2 show ?thesis by simp
qed

subsection \<open>C10: the bytes read never exceed the bytes asked for\<close>

text \<open>
  C10. In every pass of the block loop of \<open>readData\<close> that calls \<open>readBlock\<close>, the
  length of the copy is at most the length still asked for, so that subtracting it from
  that 32-bit counter does not wrap. For the whole call, the lengths of all copies add up
  to at most the length asked for, and a returned value that is not negative is at most
  that length.
\<close>

theorem readData_length_bounded:
  "(\<forall>c. readData_body fs ino i st = Inr c \<longrightarrow>
      ctl_state c = st
      \<or> (\<exists>cl. calls (ctl_state c) = calls st @ [cl] \<and> c_len cl \<le> rd_length st
            \<and> (rd_length (ctl_state c) = rd_length st
                \<or> rd_length (ctl_state c) = rd_length st - c_len cl
                  \<and> unat (rd_length (ctl_state c)) + unat (c_len cl) = unat (rd_length st))))
   \<and> (\<forall>r buf' cs. readData fs inode_idx offset buf len = Inr (r, buf', cs) \<longrightarrow>
        lens cs \<le> unat len \<and> (0 \<le> sint r \<longrightarrow> sint r \<le> uint len))"
proof (intro conjI allI impI)
  fix c
  assume c: "readData_body fs ino i st = Inr c"
  then obtain d where d: "at_index (datablocks ino) i = Some d"
    by (auto simp add: readData_body_alt split: option.splits)
  have len: "c_len (call_of fs d st) \<le> rd_length st"
    by (simp add: call_of_def copy_len_le)
  from c d consider "c = Return (- 1) st"
    | "c = Return (- 1) (st\<lparr>calls := calls st @ [call_of fs d st]\<rparr>)"
    | "c = Break (after_copy fs d st)" | "c = Continue (after_copy fs d st)"
    by (auto simp add: readData_body_alt split: if_splits)
  then show "ctl_state c = st
      \<or> (\<exists>cl. calls (ctl_state c) = calls st @ [cl] \<and> c_len cl \<le> rd_length st
            \<and> (rd_length (ctl_state c) = rd_length st
                \<or> rd_length (ctl_state c) = rd_length st - c_len cl
                  \<and> unat (rd_length (ctl_state c)) + unat (c_len cl) = unat (rd_length st)))"
  proof cases
    case 1
    then show ?thesis by simp
  next
    case 2
    with len show ?thesis by simp
  next
    case 3
    have "calls (after_copy fs d st) = calls st @ [call_of fs d st]"
      "rd_length (after_copy fs d st) = rd_length st - c_len (call_of fs d st)"
      "unat (rd_length (after_copy fs d st)) + unat (c_len (call_of fs d st))
         = unat (rd_length st)"
      using after_copy_length [of fs d st] by (simp_all add: after_copy_def call_of_def)
    with 3 len show ?thesis by auto
  next
    case 4
    have "calls (after_copy fs d st) = calls st @ [call_of fs d st]"
      "rd_length (after_copy fs d st) = rd_length st - c_len (call_of fs d st)"
      "unat (rd_length (after_copy fs d st)) + unat (c_len (call_of fs d st))
         = unat (rd_length st)"
      using after_copy_length [of fs d st] by (simp_all add: after_copy_def call_of_def)
    with 4 len show ?thesis by auto
  qed
next
  fix r buf' cs
  assume "readData fs inode_idx offset buf len = Inr (r, buf', cs)"
  then show "lens cs \<le> unat len" by (simp add: readData_result_bounded)
next
  fix r buf' cs
  assume "readData fs inode_idx offset buf len = Inr (r, buf', cs)" and "0 \<le> sint r"
  then show "sint r \<le> uint len" by (simp add: readData_result_bounded)
qed

text \<open>
  On the example image, 20 bytes asked of \<open>hello.txt\<close> (10 bytes long): the only pass
  of the loop copies 10 bytes, the digits, and leaves 10 bytes asked for; the call returns
  10.
\<close>

theorem readData_length_bounded_witness:
  "readData_body fs_ex \<lparr>isize = 10, numDataBlocks = 1, datablocks = [0]\<rparr> 0
      (rd_init \<lparr>isize = 10, numDataBlocks = 1, datablocks = [0]\<rparr> 4096 0 buf0 20)
     = Inr (Continue (after_copy fs_ex 0
         (rd_init \<lparr>isize = 10, numDataBlocks = 1, datablocks = [0]\<rparr> 4096 0 buf0 20)))
   \<and> c_len (call_of fs_ex 0
         (rd_init \<lparr>isize = 10, numDataBlocks = 1, datablocks = [0]\<rparr> 4096 0 buf0 20)) = 10
   \<and> (10 :: u32) \<le> rd_length (rd_init \<lparr>isize = 10, numDataBlocks = 1, datablocks = [0]\<rparr>
                                      4096 0 buf0 20)
   \<and> unat (rd_length (after_copy fs_ex 0
         (rd_init \<lparr>isize = 10, numDataBlocks = 1, datablocks = [0]\<rparr> 4096 0 buf0 20)))
        + unat (10 :: u32) = 20
   \<and> rd_view [0, 9, 10] (readData fs_ex 0 0 buf0 20)
       = Inr (10, [48, 57, 0], [\<lparr>c_datablockId = 0, c_offset = 0, c_dst = 0, c_len = 10\<rparr>])
   \<and> (0 :: int) \<le> sint (10 :: u32) \<and> sint (10 :: u32) \<le> uint (20 :: u32)
   \<and> lens [\<lparr>c_datablockId = 0, c_offset = 0, c_dst = 0, c_len = 10\<rparr>] \<le> unat (20 :: u32)"
proof -
  let ?ino = "\<lparr>isize = 10, numDataBlocks = 1, datablocks = [0]\<rparr>"
  let ?st = "rd_init ?ino 4096 0 buf0 20"
  let ?cs = "[\<lparr>c_datablockId = 0, c_offset = 0, c_dst = 0, c_len = 10\<rparr>]"
  note t = readData_length_bounded [of fs_ex ?ino 0 ?st 0 0 buf0 20]
  have cl: "c_len (call_of fs_ex 0 ?st) = 10"
    by (simp add: call_of_def copy_len_def rd_init_def fs_ex_def)
  have body: "readData_body fs_ex ?ino 0 ?st = Inr (Continue (after_copy fs_ex 0 ?st))"
    by (simp add: readData_body_alt at_index_def copy_len_def rd_init_def rawBlockId_def
          fs_ex_def)
  have ne: "after_copy fs_ex 0 ?st \<noteq> ?st" "rd_length (after_copy fs_ex 0 ?st) \<noteq> rd_length ?st"
    "calls (after_copy fs_ex 0 ?st) = [call_of fs_ex 0 ?st]"
    by (simp_all add: after_copy_def rd_init_def copy_len_def fs_ex_def)
  from t body have "ctl_state (Continue (after_copy fs_ex 0 ?st)) = ?st
      \<or> (\<exists>cl. calls (ctl_state (Continue (after_copy fs_ex 0 ?st))) = calls ?st @ [cl]
            \<and> c_len cl \<le> rd_length ?st
            \<and> (rd_length (ctl_state (Continue (after_copy fs_ex 0 ?st))) = rd_length ?st
                \<or> rd_length (ctl_state (Continue (after_copy fs_ex 0 ?st)))
                    = rd_length ?st - c_len cl
                  \<and> unat (rd_length (ctl_state (Continue (after_copy fs_ex 0 ?st))))
                      + unat (c_len cl) = unat (rd_length ?st)))"
    by blast
  with ne have "c_len (call_of fs_ex 0 ?st) \<le> rd_length ?st
     \<and> unat (rd_length (after_copy fs_ex 0 ?st)) + unat (c_len (call_of fs_ex 0 ?st))
         = unat (rd_length ?st)"
    by auto
  then have step: "(10 :: u32) \<le> rd_length ?st"
    "unat (rd_length (after_copy fs_ex 0 ?st)) + unat (10 :: u32) = 20"
    by (simp_all add: cl) (simp add: rd_init_def)
  have v: "rd_view [0, 9, 10] (readData fs_ex 0 0 buf0 20) = Inr (10, [48, 57, 0], ?cs)"
    by (simp add: rd_eval)
  then obtain buf' where e: "readData fs_ex 0 0 buf0 20 = Inr (10, buf', ?cs)"
    by (auto simp add: rd_view_def split: sum.splits)
  have nn: "(0 :: int) \<le> sint (10 :: u32)" by simp
  from t e nn
  have "lens ?cs \<le> unat (20 :: u32)" "sint (10 :: u32) \<le> uint (20 :: u32)" by blast+
  with body cl step v nn show ?thesis by simp
qed

end
